theory Spec2Isabelle
  imports Main
begin

section \<open>Python values used by the backend\<close>

text \<open>
  A Python \<open>str\<close> is a sequence of Unicode code points: \<open>len\<close> counts code points and
  \<open>encode('utf-8')\<close> yields between one and four bytes for each of them. A string is
  therefore a list of code points (natural numbers); Python's unbounded \<open>int\<close> is \<open>int\<close>.
\<close>

type_synonym pystr = "nat list"

definition py_str :: "string \<Rightarrow> pystr" where
  "py_str s = map of_char s"

definition len :: "'a list \<Rightarrow> int" where
  "len xs = int (length xs)"

text \<open>
  Exceptions are values. Every constructor stands for an instance of Python's
  \<open>Exception\<close>: the handlers of the source are all \<open>except Exception\<close>.
\<close>

datatype exn =
    KeyError pystr
  | ValueError pystr
  | OverflowError pystr
  | UnicodeEncodeError pystr
  | RuntimeError pystr

text \<open>
  \<open>needle in haystack\<close> on two strings: \<open>needle\<close> occurs as a contiguous block.
\<close>

fun py_in :: "pystr \<Rightarrow> pystr \<Rightarrow> bool" where
  "py_in needle [] = (needle = [])"
| "py_in needle (c # cs) = (take (length needle) (c # cs) = needle \<or> py_in needle cs)"

text \<open>
  \<open>s.encode('utf-8')\<close>. A lone surrogate (U+D800 to U+DFFF) cannot be encoded and raises
  \<open>UnicodeEncodeError\<close>. Python strings hold no code point above U+10FFFF.
\<close>

definition is_surrogate :: "nat \<Rightarrow> bool" where
  "is_surrogate c = (0xD800 \<le> c \<and> c < 0xE000)"

definition utf8_code_point :: "nat \<Rightarrow> exn + nat list" where
  "utf8_code_point c =
     (if c < 0x80 then Inr [c]
      else if c < 0x800 then Inr [0xC0 + c div 64, 0x80 + c mod 64]
      else if is_surrogate c then
        Inl (UnicodeEncodeError (py_str ''surrogates not allowed''))
      else if c < 0x10000 then
        Inr [0xE0 + c div 4096, 0x80 + (c div 64) mod 64, 0x80 + c mod 64]
      else
        Inr [0xF0 + c div 262144, 0x80 + (c div 4096) mod 64,
             0x80 + (c div 64) mod 64, 0x80 + c mod 64])"

fun utf8_encode :: "pystr \<Rightarrow> exn + nat list" where
  "utf8_encode [] = Inr []"
| "utf8_encode (c # cs) =
     (case utf8_code_point c of
        Inl e \<Rightarrow> Inl e
      | Inr bs \<Rightarrow> (case utf8_encode cs of Inl e \<Rightarrow> Inl e | Inr rest \<Rightarrow> Inr (bs @ rest)))"

text \<open>\<open>range(start, end)\<close> over integers: empty when \<open>end \<le> start\<close>.\<close>

definition py_range :: "int \<Rightarrow> int \<Rightarrow> int list" where
  "py_range start end' = [start..end' - 1]"

section \<open>The tokenizer library\<close>

text \<open>
  The backend imports the library \<open>tiktoken\<close>, which is not part of the repository.
  What the backend uses of it is a parameter of every function below: an encoding object
  with its \<open>name\<close>, its \<open>n_vocab\<close> and its methods \<open>encode\<close> and \<open>decode\<close>, and the
  two module functions that return an encoding. Each call may raise.

  \<open>str.lower\<close> depends on the Unicode case tables of the interpreter; it is the
  parameter \<open>lower\<close> of the page builder.
\<close>

record Encoding =
  name :: pystr
  n_vocab :: int
  encode :: "pystr \<Rightarrow> exn + int list"
  decode :: "int list \<Rightarrow> exn + pystr"

record tiktoken =
  get_encoding :: "pystr \<Rightarrow> exn + Encoding"
  encoding_for_model :: "pystr \<Rightarrow> exn + Encoding"

section \<open>The helper functions of \<open>backend/main.py\<close>\<close>

text \<open>
  The dictionaries the helpers return have fixed keys and are records. Two keys occur in
  more than one dictionary; the fields of a vocabulary entry carry the prefix \<open>vocab_\<close>
  (\<open>token_id\<close>, \<open>token_string\<close>, \<open>length\<close>), and the \<open>count\<close> of a vocabulary page
  is \<open>vocab_count\<close>.
\<close>

record TokenDetail =
  position :: int
  token_id :: int
  token_string :: pystr
  byte_length :: int

record TokenizeResult =
  tokens :: "int list"
  token_strings :: "pystr list"
  count :: int
  token_details :: "TokenDetail list"
  model :: pystr
  original_text :: pystr

record VocabEntry =
  vocab_token_id :: int
  vocab_token_string :: pystr
  vocab_length :: int

record VocabularyPage =
  vocabulary :: "VocabEntry list"
  total_size :: int
  showing_start :: int
  showing_end :: int
  vocab_count :: int
  search_term :: pystr

record Stats =
  encoding_name :: pystr
  total_tokens :: int
  description :: pystr
  supported_models :: "pystr list"

subsection \<open>\<open>tokenize_text_helper\<close>\<close>

text \<open>
  The list comprehension \<open>[encoding.decode([token]) for token in tokens]\<close>: one call of
  \<open>decode\<close> on a one-element list for each token, the first exception ends it.
\<close>

fun decode_each :: "Encoding \<Rightarrow> int list \<Rightarrow> exn + pystr list" where
  "decode_each encoding [] = Inr []"
| "decode_each encoding (token # rest) =
     (case decode encoding [token] of
        Inl e \<Rightarrow> Inl e
      | Inr token_str \<Rightarrow>
          (case decode_each encoding rest of
             Inl e \<Rightarrow> Inl e
           | Inr strs \<Rightarrow> Inr (token_str # strs)))"

text \<open>
  The loop over \<open>enumerate(zip(tokens, token_strings))\<close>; \<open>idx\<close> is the index of the
  first pair still to be visited and \<open>details\<close> is the list \<open>token_details\<close>
  built so far.
\<close>

fun details_loop :: "int \<Rightarrow> (int \<times> pystr) list \<Rightarrow> TokenDetail list \<Rightarrow> exn + TokenDetail list" where
  "details_loop idx [] details = Inr details"
| "details_loop idx ((tid, token_str) # rest) details =
     (case utf8_encode token_str of
        Inl e \<Rightarrow> Inl e
      | Inr bytes \<Rightarrow>
          details_loop (idx + 1) rest
            (details @
              [\<lparr>position = idx + 1, token_id = tid, token_string = token_str,
                byte_length = len bytes\<rparr>]))"

definition tokenize_text_helper :: "tiktoken \<Rightarrow> pystr \<Rightarrow> pystr \<Rightarrow> exn + TokenizeResult" where
  "tokenize_text_helper tk text mdl =
     (case encoding_for_model tk mdl of
        Inl e \<Rightarrow> Inl e
      | Inr encoding \<Rightarrow>
          (case encode encoding text of
             Inl e \<Rightarrow> Inl e
           | Inr toks \<Rightarrow>
               (case decode_each encoding toks of
                  Inl e \<Rightarrow> Inl e
                | Inr strs \<Rightarrow>
                    (case details_loop 0 (zip toks strs) [] of
                       Inl e \<Rightarrow> Inl e
                     | Inr details \<Rightarrow>
                         Inr \<lparr>tokens = toks, token_strings = strs, count = len toks,
                              token_details = details, model = mdl,
                              original_text = text\<rparr>))))"

subsection \<open>\<open>get_vocabulary_helper\<close>\<close>

definition SPECIAL_TOKEN :: pystr where
  "SPECIAL_TOKEN = py_str ''[SPECIAL_TOKEN]''"

text \<open>
  The body of the \<open>for\<close> loop at the ID \<open>i\<close>: the \<open>try\<close> block appends the decoded
  entry when the search matches, the \<open>except Exception\<close> block appends the placeholder
  when the search is empty.
\<close>

definition vocab_body ::
  "Encoding \<Rightarrow> (pystr \<Rightarrow> pystr) \<Rightarrow> pystr \<Rightarrow> int \<Rightarrow> VocabEntry list \<Rightarrow> VocabEntry list" where
  "vocab_body encoding lower search i vocab_list =
     (case decode encoding [i] of
        Inr token_str \<Rightarrow>
          (if search = [] \<or> py_in (lower search) (lower token_str)
           then vocab_list @
                  [\<lparr>vocab_token_id = i, vocab_token_string = token_str,
                    vocab_length = len token_str\<rparr>]
           else vocab_list)
      | Inl e \<Rightarrow>
          (if search = []
           then vocab_list @
                  [\<lparr>vocab_token_id = i, vocab_token_string = SPECIAL_TOKEN,
                    vocab_length = 0\<rparr>]
           else vocab_list))"

fun vocab_loop ::
  "Encoding \<Rightarrow> (pystr \<Rightarrow> pystr) \<Rightarrow> pystr \<Rightarrow> int list \<Rightarrow> VocabEntry list \<Rightarrow> VocabEntry list" where
  "vocab_loop encoding lower search [] vocab_list = vocab_list"
| "vocab_loop encoding lower search (i # rest) vocab_list =
     vocab_loop encoding lower search rest (vocab_body encoding lower search i vocab_list)"

definition cl100k_base :: pystr where
  "cl100k_base = py_str ''cl100k_base''"

definition get_vocabulary_helper ::
  "tiktoken \<Rightarrow> (pystr \<Rightarrow> pystr) \<Rightarrow> int \<Rightarrow> int \<Rightarrow> pystr \<Rightarrow> exn + VocabularyPage" where
  "get_vocabulary_helper tk lower start limit search =
     (case get_encoding tk cl100k_base of
        Inl e \<Rightarrow> Inl e
      | Inr encoding \<Rightarrow>
          (let total_vocab_size = n_vocab encoding;
               end' = min (start + limit) total_vocab_size;
               vocab_list = vocab_loop encoding lower search (py_range start end') []
           in Inr \<lparr>vocabulary = vocab_list, total_size = total_vocab_size,
                   showing_start = start, showing_end = end',
                   vocab_count = len vocab_list, search_term = search\<rparr>))"

subsection \<open>\<open>get_stats_helper\<close>\<close>

definition get_stats_helper :: "tiktoken \<Rightarrow> exn + Stats" where
  "get_stats_helper tk =
     (case get_encoding tk cl100k_base of
        Inl e \<Rightarrow> Inl e
      | Inr encoding \<Rightarrow>
          Inr \<lparr>encoding_name = name encoding, total_tokens = n_vocab encoding,
               description = py_str ''GPT-3.5/GPT-4 vocabulary (cl100k_base)'',
               supported_models =
                 [py_str ''gpt-3.5-turbo'', py_str ''gpt-4'', py_str ''gpt-4-turbo'']\<rparr>)"

section \<open>Small libraries for concrete runs\<close>

text \<open>
  \<open>demo_tiktoken\<close> has one encoding of eight IDs. IDs 5 and 7 are special (they do not
  decode), negative IDs are rejected, and a sequence decodes to the concatenation of its
  pieces. \<open>demo_lower\<close> is \<open>str.lower\<close> on ASCII letters.
\<close>

definition demo_lower :: "pystr \<Rightarrow> pystr" where
  "demo_lower s = map (\<lambda>c. if 65 \<le> c \<and> c \<le> 90 then c + 32 else c) s"

definition demo_piece :: "int \<Rightarrow> exn + pystr" where
  "demo_piece i =
     (if i < 0 then Inl (OverflowError (py_str ''negative token''))
      else if i = 0 then Inr (py_str ''A'')
      else if i = 1 then Inr (py_str ''b'')
      else if i = 2 then Inr (py_str ''c'')
      else if i = 3 then Inr [233]
      else if i = 4 then Inr [8364]
      else if i = 6 then Inr (py_str ''Ab'')
      else Inl (KeyError (py_str ''unknown token'')))"

fun demo_decode :: "int list \<Rightarrow> exn + pystr" where
  "demo_decode [] = Inr []"
| "demo_decode (i # rest) =
     (case demo_piece i of
        Inl e \<Rightarrow> Inl e
      | Inr s \<Rightarrow> (case demo_decode rest of Inl e \<Rightarrow> Inl e | Inr t \<Rightarrow> Inr (s @ t)))"

definition demo_id :: "nat \<Rightarrow> exn + int" where
  "demo_id c =
     (if c = 65 then Inr 0 else if c = 98 then Inr 1 else if c = 99 then Inr 2
      else if c = 233 then Inr 3 else if c = 8364 then Inr 4
      else Inl (ValueError (py_str ''no token'')))"

fun demo_encode :: "pystr \<Rightarrow> exn + int list" where
  "demo_encode [] = Inr []"
| "demo_encode (c # cs) =
     (case demo_id c of
        Inl e \<Rightarrow> Inl e
      | Inr i \<Rightarrow> (case demo_encode cs of Inl e \<Rightarrow> Inl e | Inr rest \<Rightarrow> Inr (i # rest)))"

definition demo_encoding :: Encoding where
  "demo_encoding =
     \<lparr>name = py_str ''demo'', n_vocab = 8, encode = demo_encode, decode = demo_decode\<rparr>"

definition demo_tiktoken :: tiktoken where
  "demo_tiktoken =
     \<lparr>get_encoding = (\<lambda>nm. if nm = cl100k_base then Inr demo_encoding
                            else Inl (ValueError (py_str ''unknown encoding''))),
      encoding_for_model = (\<lambda>m. if m = py_str ''gpt-4'' then Inr demo_encoding
                            else Inl (KeyError (py_str ''unknown model'')))\<rparr>"

text \<open>
  \<open>bytes_tiktoken\<close> has a byte-level encoding: the tokens of a text are the bytes of its
  UTF-8 form. A byte below 128 decodes to its character; a sequence that is a lone part
  of a longer character decodes to U+FFFD for each byte, as \<open>bytes.decode\<close> with
  \<open>errors='replace'\<close> does; the two bytes of U+00E9 together decode to U+00E9.
\<close>

definition bytes_encode :: "pystr \<Rightarrow> exn + int list" where
  "bytes_encode text = (case utf8_encode text of Inl e \<Rightarrow> Inl e | Inr bs \<Rightarrow> Inr (map int bs))"

definition bytes_decode :: "int list \<Rightarrow> exn + pystr" where
  "bytes_decode ts =
     (if ts = [195, 169] then Inr [233]
      else Inr (map (\<lambda>t. if 0 \<le> t \<and> t < 128 then nat t else 65533) ts))"

definition bytes_encoding :: Encoding where
  "bytes_encoding =
     \<lparr>name = py_str ''bytes'', n_vocab = 256, encode = bytes_encode, decode = bytes_decode\<rparr>"

definition bytes_tiktoken :: tiktoken where
  "bytes_tiktoken =
     \<lparr>get_encoding = (\<lambda>nm. Inr bytes_encoding),
      encoding_for_model = (\<lambda>m. Inr bytes_encoding)\<rparr>"

text \<open>
  \<open>offline_tiktoken\<close> is a library that cannot load any encoding: \<open>get_encoding\<close>
  and \<open>encoding_for_model\<close> raise for every name.
\<close>

definition offline_tiktoken :: tiktoken where
  "offline_tiktoken =
     \<lparr>get_encoding = (\<lambda>nm. Inl (RuntimeError (py_str ''vocabulary file unavailable''))),
      encoding_for_model = (\<lambda>m. Inl (RuntimeError (py_str ''vocabulary file unavailable'')))\<rparr>"

section \<open>The loop of the page builder\<close>

lemma vocab_body_append:
  "vocab_body enc lower search i acc = acc @ vocab_body enc lower search i []"
  by (simp add: vocab_body_def split: sum.splits)

lemma vocab_loop_append:
  "vocab_loop enc lower search ids acc = acc @ vocab_loop enc lower search ids []"
proof (induction ids arbitrary: acc)
  case Nil
  show ?case by simp
next
  case (Cons i rest)
  have "vocab_loop enc lower search (i # rest) acc
        = vocab_body enc lower search i acc @ vocab_loop enc lower search rest []"
    using Cons.IH [of "vocab_body enc lower search i acc"] by simp
  also have "\<dots> = acc @ vocab_body enc lower search i [] @ vocab_loop enc lower search rest []"
    using vocab_body_append [of enc lower search i acc] by simp
  also have "\<dots> = acc @ vocab_loop enc lower search (i # rest) []"
    using Cons.IH [of "vocab_body enc lower search i []"] by simp
  finally show ?case .
qed

lemma vocab_loop_Cons:
  "vocab_loop enc lower search (i # rest) [] =
     vocab_body enc lower search i [] @ vocab_loop enc lower search rest []"
  using vocab_loop_append [of enc lower search rest "vocab_body enc lower search i []"] by simp

lemma vocab_loop_concat:
  "vocab_loop enc lower search ids [] = concat (map (\<lambda>i. vocab_body enc lower search i []) ids)"
  by (induction ids) (simp_all add: vocab_loop_Cons del: vocab_loop.simps(2))

lemma vocab_body_ids:
  "map vocab_token_id (vocab_body enc lower search i []) =
     (if vocab_body enc lower search i [] = [] then [] else [i])"
  by (simp add: vocab_body_def split: sum.splits)

lemma vocab_loop_ids:
  "map vocab_token_id (vocab_loop enc lower search ids []) =
     filter (\<lambda>i. vocab_body enc lower search i [] \<noteq> []) ids"
  by (induction ids) (simp_all add: vocab_loop_Cons vocab_body_ids del: vocab_loop.simps(2))

lemma set_vocab_loop:
  "set (vocab_loop enc lower search ids []) = (\<Union>i\<in>set ids. set (vocab_body enc lower search i []))"
  by (simp add: vocab_loop_concat)

lemma set_py_range: "set (py_range a b) = {i. a \<le> i \<and> i < b}"
  by (auto simp: py_range_def)

lemma length_py_range: "length (py_range a b) = nat (b - a)"
  by (simp add: py_range_def)

lemma vocab_body_id:
  "e \<in> set (vocab_body enc lower search i []) \<Longrightarrow> vocab_token_id e = i"
  by (auto simp: vocab_body_def split: sum.splits if_splits)

lemma vocab_body_fail:
  "decode enc [i] = Inl x \<Longrightarrow>
   vocab_body enc lower search i [] =
     (if search = [] then [\<lparr>vocab_token_id = i, vocab_token_string = SPECIAL_TOKEN, vocab_length = 0\<rparr>]
      else [])"
  by (simp add: vocab_body_def)

lemma vocab_body_ok:
  "decode enc [i] = Inr s \<Longrightarrow>
   vocab_body enc lower search i [] =
     (if search = [] \<or> py_in (lower search) (lower s)
      then [\<lparr>vocab_token_id = i, vocab_token_string = s, vocab_length = len s\<rparr>]
      else [])"
  by (simp add: vocab_body_def)

lemma vocab_loop_mem:
  "e \<in> set (vocab_loop enc lower search ids []) \<longleftrightarrow>
     vocab_token_id e \<in> set ids \<and> e \<in> set (vocab_body enc lower search (vocab_token_id e) [])"
  using vocab_body_id [of e enc lower search] by (auto simp: set_vocab_loop)

lemma py_in_iff: "py_in needle hay \<longleftrightarrow> (\<exists>p q. hay = p @ needle @ q)"
proof (induction hay)
  case Nil
  show ?case by auto
next
  case (Cons c cs)
  show ?case
  proof
    assume "py_in needle (c # cs)"
    then consider "take (length needle) (c # cs) = needle" | "py_in needle cs" by auto
    then show "\<exists>p q. c # cs = p @ needle @ q"
    proof cases
      case 1
      then have "c # cs = [] @ needle @ drop (length needle) (c # cs)"
        by (metis append_Nil append_take_drop_id)
      then show ?thesis by blast
    next
      case 2
      then obtain p q where "cs = p @ needle @ q" using Cons.IH by blast
      then have "c # cs = (c # p) @ needle @ q" by simp
      then show ?thesis by blast
    qed
  next
    assume "\<exists>p q. c # cs = p @ needle @ q"
    then obtain p q where pq: "c # cs = p @ needle @ q" by blast
    show "py_in needle (c # cs)"
    proof (cases p)
      case Nil
      then have "take (length needle) (c # cs) = needle" using pq by simp
      then show ?thesis by simp
    next
      case (Cons d p')
      then have "cs = p' @ needle @ q" using pq by simp
      then have "py_in needle cs" using Cons.IH by blast
      then show ?thesis by simp
    qed
  qed
qed

lemma get_vocabulary_helper_Inr:
  "get_encoding tk cl100k_base = Inr enc \<Longrightarrow>
   get_vocabulary_helper tk lower start limit search =
     Inr \<lparr>vocabulary =
            vocab_loop enc lower search (py_range start (min (start + limit) (n_vocab enc))) [],
          total_size = n_vocab enc, showing_start = start,
          showing_end = min (start + limit) (n_vocab enc),
          vocab_count =
            len (vocab_loop enc lower search (py_range start (min (start + limit) (n_vocab enc))) []),
          search_term = search\<rparr>"
  by (simp add: get_vocabulary_helper_def Let_def)

lemma len_SPECIAL_TOKEN: "len SPECIAL_TOKEN = 15"
  by (simp add: SPECIAL_TOKEN_def py_str_def len_def)

lemma demo_get_encoding: "get_encoding demo_tiktoken cl100k_base = Inr demo_encoding"
  by (simp add: demo_tiktoken_def)

section \<open>The vocabulary page builder\<close>

text \<open>
  Claim C1. For every call of the page builder with \<open>start \<ge> 0\<close> and \<open>limit > 0\<close>,
  the page reports \<open>showing_start = start\<close> and
  \<open>showing_end = min(start + limit, total_size)\<close>, where \<open>total_size\<close> is the size of
  the encoder's vocabulary, whatever the search string is and however many entries the
  filter removes.
\<close>

theorem page_reports_scanned_window:
  assumes "get_encoding tk cl100k_base = Inr enc" and "0 \<le> start" and "0 < limit"
  shows "\<exists>page. get_vocabulary_helper tk lower start limit search = Inr page
           \<and> total_size page = n_vocab enc
           \<and> showing_start page = start
           \<and> showing_end page = min (start + limit) (total_size page)"
  using get_vocabulary_helper_Inr [OF assms(1), of lower start limit search] by simp

theorem page_reports_scanned_window_witness:
  "get_encoding demo_tiktoken cl100k_base = Inr demo_encoding \<and> (0::int) \<le> 6 \<and> (0::int) < 5
   \<and> (\<exists>page. get_vocabulary_helper demo_tiktoken demo_lower 6 5 (py_str ''b'') = Inr page
          \<and> total_size page = 8 \<and> showing_start page = 6 \<and> showing_end page = 8)"
proof -
  have h: "get_encoding demo_tiktoken cl100k_base = Inr demo_encoding"
    by (rule demo_get_encoding)
  have n: "n_vocab demo_encoding = 8" by (simp add: demo_encoding_def)
  from page_reports_scanned_window [OF h, of 6 5 demo_lower "py_str ''b''"]
  obtain page where
    "get_vocabulary_helper demo_tiktoken demo_lower 6 5 (py_str ''b'') = Inr page"
    "total_size page = n_vocab demo_encoding" "showing_start page = 6"
    "showing_end page = min (6 + 5) (total_size page)"
    by auto
  then show ?thesis using h n by auto
qed

lemma vocab_body_length:
  "e \<in> set (vocab_body enc lower search i []) \<Longrightarrow> search \<noteq> [] \<Longrightarrow>
   vocab_length e = len (vocab_token_string e)"
  by (auto simp: vocab_body_def split: sum.splits if_splits)

text \<open>
  Claim C2, as amended. For every call of the page builder with \<open>start \<ge> total_size\<close>
  no error is raised and the vocabulary list is empty; the page reports
  \<open>showing_start = start\<close> and \<open>showing_end = min(start + limit, total_size)\<close>, which
  is \<open>total_size\<close> when \<open>limit \<ge> 0\<close>, and so equals \<open>start\<close> only when
  \<open>start = total_size\<close>.
\<close>

theorem page_beyond_vocabulary_is_empty:
  assumes "get_encoding tk cl100k_base = Inr enc" and "n_vocab enc \<le> start"
  shows "get_vocabulary_helper tk lower start limit search =
           Inr \<lparr>vocabulary = [], total_size = n_vocab enc, showing_start = start,
                showing_end = min (start + limit) (n_vocab enc), vocab_count = 0,
                search_term = search\<rparr>
         \<and> (0 \<le> limit \<longrightarrow> min (start + limit) (n_vocab enc) = n_vocab enc)"
proof -
  have "min (start + limit) (n_vocab enc) \<le> start" using assms(2) by simp
  then have "py_range start (min (start + limit) (n_vocab enc)) = []"
    by (simp add: py_range_def)
  then show ?thesis
    using get_vocabulary_helper_Inr [OF assms(1), of lower start limit search] assms(2)
    by (simp add: len_def)
qed

theorem page_beyond_vocabulary_is_empty_witness:
  "get_encoding demo_tiktoken cl100k_base = Inr demo_encoding \<and> n_vocab demo_encoding \<le> 10
   \<and> get_vocabulary_helper demo_tiktoken demo_lower 10 5 (py_str ''b'') =
       Inr \<lparr>vocabulary = [], total_size = 8, showing_start = 10, showing_end = 8,
            vocab_count = 0, search_term = py_str ''b''\<rparr>"
proof -
  have h: "get_encoding demo_tiktoken cl100k_base = Inr demo_encoding"
    by (rule demo_get_encoding)
  have n: "n_vocab demo_encoding = 8" by (simp add: demo_encoding_def)
  have le: "n_vocab demo_encoding \<le> 10" using n by simp
  from page_beyond_vocabulary_is_empty [OF h le, of demo_lower 5 "py_str ''b''"]
  show ?thesis using h n by simp
qed

theorem showing_end_beyond_vocabulary_counterexample:
  "n_vocab demo_encoding \<le> 10
   \<and> get_vocabulary_helper demo_tiktoken demo_lower 10 5 [] =
       Inr \<lparr>vocabulary = [], total_size = 8, showing_start = 10, showing_end = 8,
            vocab_count = 0, search_term = []\<rparr>
   \<and> (8::int) \<noteq> 10"
  by (simp add: get_vocabulary_helper_def demo_get_encoding demo_encoding_def py_range_def
      len_def)

text \<open>
  Claim C3. For every ID of the scanned window whose decode fails, the page holds the
  placeholder entry of that ID (the marker string, length 0) if and only if the search
  string is empty. The failure never becomes an error of the page builder, and a page
  built with a non-empty search string holds no placeholder entry.
\<close>

theorem placeholder_iff_empty_search:
  assumes "get_encoding tk cl100k_base = Inr enc"
  shows "\<exists>page. get_vocabulary_helper tk lower start limit search = Inr page
           \<and> (\<forall>i. start \<le> i \<and> i < min (start + limit) (n_vocab enc)
                  \<and> (\<exists>x. decode enc [i] = Inl x) \<longrightarrow>
                 ((\<lparr>vocab_token_id = i, vocab_token_string = SPECIAL_TOKEN, vocab_length = 0\<rparr>
                     \<in> set (vocabulary page)) = (search = []))
                 \<and> ((\<exists>entry \<in> set (vocabulary page). vocab_token_id entry = i) = (search = [])))
           \<and> (search \<noteq> [] \<longrightarrow>
                 (\<forall>entry \<in> set (vocabulary page).
                    \<not> (vocab_token_string entry = SPECIAL_TOKEN \<and> vocab_length entry = 0)))"
proof -
  let ?end = "min (start + limit) (n_vocab enc)"
  let ?vs = "vocab_loop enc lower search (py_range start ?end) []"
  let ?ph = "\<lambda>i. \<lparr>vocab_token_id = i, vocab_token_string = SPECIAL_TOKEN, vocab_length = 0\<rparr>"
  have a: "(?ph i \<in> set ?vs) = (search = [])"
    and b: "(\<exists>entry \<in> set ?vs. vocab_token_id entry = i) = (search = [])"
    if "start \<le> i" "i < ?end" "decode enc [i] = Inl x" for i x
  proof -
    have body: "vocab_body enc lower search i [] = (if search = [] then [?ph i] else [])"
      using vocab_body_fail [OF that(3)] .
    have inr: "i \<in> set (py_range start ?end)" using that(1,2) by (simp add: set_py_range)
    show "(?ph i \<in> set ?vs) = (search = [])"
      using inr body by (simp add: vocab_loop_mem)
    show "(\<exists>entry \<in> set ?vs. vocab_token_id entry = i) = (search = [])"
    proof
      assume "\<exists>entry \<in> set ?vs. vocab_token_id entry = i"
      then obtain entry where "entry \<in> set (vocab_body enc lower search i [])"
        by (auto simp: vocab_loop_mem)
      then show "search = []" using body by (auto split: if_splits)
    next
      assume "search = []"
      then have "?ph i \<in> set ?vs" using inr body by (simp add: vocab_loop_mem)
      then show "\<exists>entry \<in> set ?vs. vocab_token_id entry = i" by force
    qed
  qed
  have c: "\<not> (vocab_token_string entry = SPECIAL_TOKEN \<and> vocab_length entry = 0)"
    if "search \<noteq> []" "entry \<in> set ?vs" for entry
  proof -
    have "entry \<in> set (vocab_body enc lower search (vocab_token_id entry) [])"
      using that(2) by (simp add: vocab_loop_mem)
    then have "vocab_length entry = len (vocab_token_string entry)"
      using that(1) by (rule vocab_body_length)
    then show ?thesis using len_SPECIAL_TOKEN by auto
  qed
  let ?page = "\<lparr>vocabulary = ?vs, total_size = n_vocab enc, showing_start = start,
                 showing_end = ?end, vocab_count = len ?vs, search_term = search\<rparr>"
  have ret: "get_vocabulary_helper tk lower start limit search = Inr ?page"
    using get_vocabulary_helper_Inr [OF assms, of lower start limit search] .
  have fails: "\<forall>i. start \<le> i \<and> i < ?end \<and> (\<exists>x. decode enc [i] = Inl x) \<longrightarrow>
                 ((?ph i \<in> set (vocabulary ?page)) = (search = []))
                 \<and> ((\<exists>entry \<in> set (vocabulary ?page). vocab_token_id entry = i) = (search = []))"
  proof (intro allI impI)
    fix i
    assume h: "start \<le> i \<and> i < ?end \<and> (\<exists>x. decode enc [i] = Inl x)"
    then obtain x where x: "decode enc [i] = Inl x" by blast
    from h have lo: "start \<le> i" and hi: "i < ?end" by simp_all
    show "((?ph i \<in> set (vocabulary ?page)) = (search = []))
          \<and> ((\<exists>entry \<in> set (vocabulary ?page). vocab_token_id entry = i) = (search = []))"
      using a [OF lo hi x] b [OF lo hi x] by simp
  qed
  have hidden: "search \<noteq> [] \<longrightarrow>
                 (\<forall>entry \<in> set (vocabulary ?page).
                    \<not> (vocab_token_string entry = SPECIAL_TOKEN \<and> vocab_length entry = 0))"
    using c by simp
  from ret fails hidden show ?thesis by blast
qed

lemma demo_decode_5: "decode demo_encoding [5] = Inl (KeyError (py_str ''unknown token''))"
  by (simp add: demo_encoding_def demo_piece_def)

theorem placeholder_iff_empty_search_witness:
  "get_encoding demo_tiktoken cl100k_base = Inr demo_encoding
   \<and> (\<exists>page. get_vocabulary_helper demo_tiktoken demo_lower 4 4 [] = Inr page
          \<and> \<lparr>vocab_token_id = 5, vocab_token_string = SPECIAL_TOKEN, vocab_length = 0\<rparr>
                \<in> set (vocabulary page))
   \<and> (\<exists>page. get_vocabulary_helper demo_tiktoken demo_lower 4 4 (py_str ''b'') = Inr page
          \<and> \<lparr>vocab_token_id = 5, vocab_token_string = SPECIAL_TOKEN, vocab_length = 0\<rparr>
                \<notin> set (vocabulary page))"
proof -
  have h: "get_encoding demo_tiktoken cl100k_base = Inr demo_encoding"
    by (rule demo_get_encoding)
  have w: "(4::int) \<le> 5 \<and> 5 < min (4 + 4) (n_vocab demo_encoding)
           \<and> (\<exists>x. decode demo_encoding [5] = Inl x)"
    using demo_decode_5 by (simp add: demo_encoding_def)
  have ne: "py_str ''b'' \<noteq> []" by (simp add: py_str_def)
  from placeholder_iff_empty_search [OF h, of demo_lower 4 4 "[]"] w
  have 1: "\<exists>page. get_vocabulary_helper demo_tiktoken demo_lower 4 4 [] = Inr page
          \<and> \<lparr>vocab_token_id = 5, vocab_token_string = SPECIAL_TOKEN, vocab_length = 0\<rparr>
                \<in> set (vocabulary page)"
    by blast
  from placeholder_iff_empty_search [OF h, of demo_lower 4 4 "py_str ''b''"] w ne
  have 2: "\<exists>page. get_vocabulary_helper demo_tiktoken demo_lower 4 4 (py_str ''b'') = Inr page
          \<and> \<lparr>vocab_token_id = 5, vocab_token_string = SPECIAL_TOKEN, vocab_length = 0\<rparr>
                \<notin> set (vocabulary page)"
    by blast
  from h 1 2 show ?thesis by blast
qed

text \<open>
  Claim C4. For every ID of the scanned window whose decode succeeds, the page holds an
  entry of that ID if and only if the search string is empty or the case-folded search
  string is a substring of the case-folded decoded string; such an entry carries the ID,
  the decoded string and the number of characters of the string.
\<close>

theorem decoded_entry_iff_search_matches:
  assumes "get_encoding tk cl100k_base = Inr enc"
  shows "\<exists>page. get_vocabulary_helper tk lower start limit search = Inr page
           \<and> (\<forall>i s. start \<le> i \<and> i < min (start + limit) (n_vocab enc)
                  \<and> decode enc [i] = Inr s \<longrightarrow>
                 ((\<exists>entry \<in> set (vocabulary page). vocab_token_id entry = i)
                    = (search = [] \<or> (\<exists>p q. lower s = p @ lower search @ q)))
                 \<and> (\<forall>entry \<in> set (vocabulary page). vocab_token_id entry = i \<longrightarrow>
                       entry = \<lparr>vocab_token_id = i, vocab_token_string = s,
                                vocab_length = int (length s)\<rparr>))"
proof -
  let ?end = "min (start + limit) (n_vocab enc)"
  let ?vs = "vocab_loop enc lower search (py_range start ?end) []"
  let ?page = "\<lparr>vocabulary = ?vs, total_size = n_vocab enc, showing_start = start,
                 showing_end = ?end, vocab_count = len ?vs, search_term = search\<rparr>"
  have ret: "get_vocabulary_helper tk lower start limit search = Inr ?page"
    using get_vocabulary_helper_Inr [OF assms, of lower start limit search] .
  have main: "\<forall>i s. start \<le> i \<and> i < ?end \<and> decode enc [i] = Inr s \<longrightarrow>
                 ((\<exists>entry \<in> set (vocabulary ?page). vocab_token_id entry = i)
                    = (search = [] \<or> (\<exists>p q. lower s = p @ lower search @ q)))
                 \<and> (\<forall>entry \<in> set (vocabulary ?page). vocab_token_id entry = i \<longrightarrow>
                       entry = \<lparr>vocab_token_id = i, vocab_token_string = s,
                                vocab_length = int (length s)\<rparr>)"
  proof (intro allI impI)
    fix i s
    assume h: "start \<le> i \<and> i < ?end \<and> decode enc [i] = Inr s"
    let ?e = "\<lparr>vocab_token_id = i, vocab_token_string = s, vocab_length = int (length s)\<rparr>"
    let ?m = "search = [] \<or> (\<exists>p q. lower s = p @ lower search @ q)"
    from h have inr: "i \<in> set (py_range start ?end)" by (simp add: set_py_range)
    from h have body: "vocab_body enc lower search i [] = (if ?m then [?e] else [])"
      using vocab_body_ok [of enc i s lower search] by (simp add: py_in_iff len_def)
    have only: "entry = ?e" if "entry \<in> set ?vs" "vocab_token_id entry = i" for entry
    proof -
      have "entry \<in> set (vocab_body enc lower search i [])"
        using that by (simp add: vocab_loop_mem)
      then show ?thesis using body by (simp split: if_splits)
    qed
    have iff: "(\<exists>entry \<in> set ?vs. vocab_token_id entry = i) = ?m"
    proof
      assume "\<exists>entry \<in> set ?vs. vocab_token_id entry = i"
      then obtain entry where "entry \<in> set (vocab_body enc lower search i [])"
        by (auto simp: vocab_loop_mem)
      then show ?m using body by (simp split: if_splits)
    next
      assume ?m
      then have "?e \<in> set ?vs" using inr body by (simp add: vocab_loop_mem)
      then show "\<exists>entry \<in> set ?vs. vocab_token_id entry = i" by force
    qed
    show "((\<exists>entry \<in> set (vocabulary ?page). vocab_token_id entry = i) = ?m)
          \<and> (\<forall>entry \<in> set (vocabulary ?page). vocab_token_id entry = i \<longrightarrow> entry = ?e)"
      using iff only by simp
  qed
  from ret main show ?thesis by blast
qed

lemma demo_decode_6: "decode demo_encoding [6] = Inr (py_str ''Ab'')"
  by (simp add: demo_encoding_def demo_piece_def)

theorem decoded_entry_iff_search_matches_witness:
  "get_encoding demo_tiktoken cl100k_base = Inr demo_encoding
   \<and> (\<exists>page. get_vocabulary_helper demo_tiktoken demo_lower 4 4 (py_str ''B'') = Inr page
          \<and> (\<exists>entry \<in> set (vocabulary page). vocab_token_id entry = 6)
          \<and> (\<forall>entry \<in> set (vocabulary page). vocab_token_id entry = 6 \<longrightarrow>
                entry = \<lparr>vocab_token_id = 6, vocab_token_string = py_str ''Ab'',
                         vocab_length = 2\<rparr>))"
proof -
  have h: "get_encoding demo_tiktoken cl100k_base = Inr demo_encoding"
    by (rule demo_get_encoding)
  have w: "(4::int) \<le> 6 \<and> 6 < min (4 + 4) (n_vocab demo_encoding)
           \<and> decode demo_encoding [6] = Inr (py_str ''Ab'')"
    using demo_decode_6 by (simp add: demo_encoding_def)
  have "demo_lower (py_str ''Ab'') = [97] @ demo_lower (py_str ''B'') @ []"
    by (simp add: demo_lower_def py_str_def)
  then have m: "\<exists>p q. demo_lower (py_str ''Ab'') = p @ demo_lower (py_str ''B'') @ q"
    by blast
  have l: "int (length (py_str ''Ab'')) = 2" by (simp add: py_str_def)
  from decoded_entry_iff_search_matches [OF h, of demo_lower 4 4 "py_str ''B''"]
  obtain page where p: "get_vocabulary_helper demo_tiktoken demo_lower 4 4 (py_str ''B'') = Inr page"
    and q: "\<forall>i s. 4 \<le> i \<and> i < min (4 + 4) (n_vocab demo_encoding)
                  \<and> decode demo_encoding [i] = Inr s \<longrightarrow>
                 ((\<exists>entry \<in> set (vocabulary page). vocab_token_id entry = i)
                    = (py_str ''B'' = [] \<or> (\<exists>p q. demo_lower s = p @ demo_lower (py_str ''B'') @ q)))
                 \<and> (\<forall>entry \<in> set (vocabulary page). vocab_token_id entry = i \<longrightarrow>
                       entry = \<lparr>vocab_token_id = i, vocab_token_string = s,
                                vocab_length = int (length s)\<rparr>)"
    by blast
  from q w have r: "((\<exists>entry \<in> set (vocabulary page). vocab_token_id entry = 6)
                    = (py_str ''B'' = [] \<or> (\<exists>p q. demo_lower (py_str ''Ab'') = p @ demo_lower (py_str ''B'') @ q)))
                 \<and> (\<forall>entry \<in> set (vocabulary page). vocab_token_id entry = 6 \<longrightarrow>
                       entry = \<lparr>vocab_token_id = 6, vocab_token_string = py_str ''Ab'',
                                vocab_length = int (length (py_str ''Ab''))\<rparr>)"
    by blast
  from h p r m l show ?thesis by auto
qed

lemma vocab_body_empty_search: "vocab_body enc lower [] i [] \<noteq> []"
  by (simp add: vocab_body_def split: sum.splits)

lemma vocab_loop_sorted:
  "sorted_wrt (<) (map vocab_token_id (vocab_loop enc lower search (py_range a b) []))"
proof -
  have "sorted_wrt (<) (py_range a b)" by (simp add: py_range_def)
  then show ?thesis by (simp add: vocab_loop_ids sorted_wrt_filter)
qed

lemma vocab_loop_length:
  "length (vocab_loop enc lower search (py_range a b) []) \<le> nat (b - a)"
proof -
  have "length (map vocab_token_id (vocab_loop enc lower search (py_range a b) []))
          \<le> length (py_range a b)"
    unfolding vocab_loop_ids by (rule length_filter_le)
  then show ?thesis by (simp add: length_py_range)
qed

text \<open>
  Claim C5. For every call with \<open>start \<ge> 0\<close> and \<open>limit > 0\<close> the page holds at most
  \<open>limit\<close> entries, every \<open>token_id\<close> of the page lies in
  \<open>[start, min(start + limit, vocabSize))\<close>, and the \<open>token_id\<close>s are strictly
  ascending. In particular, with a vocabulary of at least five IDs,
  \<open>vocabulary(start=0, limit=5, search="")\<close> holds exactly five entries, with the IDs
  0, 1, 2, 3, 4 in this order.
\<close>

theorem page_ids_in_window_ascending:
  assumes "get_encoding tk cl100k_base = Inr enc"
  shows "(0 \<le> start \<and> 0 < limit \<longrightarrow>
            (\<exists>page. get_vocabulary_helper tk lower start limit search = Inr page
               \<and> int (length (vocabulary page)) \<le> limit
               \<and> vocab_count page \<le> limit
               \<and> (\<forall>entry \<in> set (vocabulary page).
                     start \<le> vocab_token_id entry
                     \<and> vocab_token_id entry < min (start + limit) (n_vocab enc))
               \<and> sorted_wrt (<) (map vocab_token_id (vocabulary page))))
         \<and> (5 \<le> n_vocab enc \<longrightarrow>
            (\<exists>page. get_vocabulary_helper tk lower 0 5 [] = Inr page
               \<and> length (vocabulary page) = 5
               \<and> vocab_count page = 5
               \<and> map vocab_token_id (vocabulary page) = [0, 1, 2, 3, 4]))"
proof (intro conjI impI)
  assume h: "0 \<le> start \<and> 0 < limit"
  let ?end = "min (start + limit) (n_vocab enc)"
  let ?vs = "vocab_loop enc lower search (py_range start ?end) []"
  let ?page = "\<lparr>vocabulary = ?vs, total_size = n_vocab enc, showing_start = start,
                 showing_end = ?end, vocab_count = len ?vs, search_term = search\<rparr>"
  have ret: "get_vocabulary_helper tk lower start limit search = Inr ?page"
    using get_vocabulary_helper_Inr [OF assms, of lower start limit search] .
  have "length ?vs \<le> nat (?end - start)" by (rule vocab_loop_length)
  also have "\<dots> \<le> nat limit" by simp
  finally have n: "int (length ?vs) \<le> limit" using h by linarith
  have w: "\<forall>entry \<in> set ?vs. start \<le> vocab_token_id entry \<and> vocab_token_id entry < ?end"
    by (simp add: vocab_loop_mem set_py_range)
  have s: "sorted_wrt (<) (map vocab_token_id ?vs)" by (rule vocab_loop_sorted)
  have "int (length (vocabulary ?page)) \<le> limit
        \<and> vocab_count ?page \<le> limit
        \<and> (\<forall>entry \<in> set (vocabulary ?page).
              start \<le> vocab_token_id entry \<and> vocab_token_id entry < ?end)
        \<and> sorted_wrt (<) (map vocab_token_id (vocabulary ?page))"
    using n w s by (simp add: len_def)
  with ret show "\<exists>page. get_vocabulary_helper tk lower start limit search = Inr page
               \<and> int (length (vocabulary page)) \<le> limit
               \<and> vocab_count page \<le> limit
               \<and> (\<forall>entry \<in> set (vocabulary page).
                     start \<le> vocab_token_id entry
                     \<and> vocab_token_id entry < min (start + limit) (n_vocab enc))
               \<and> sorted_wrt (<) (map vocab_token_id (vocabulary page))"
    by blast
next
  assume h: "5 \<le> n_vocab enc"
  let ?vs = "vocab_loop enc lower [] (py_range 0 5) []"
  let ?page = "\<lparr>vocabulary = ?vs, total_size = n_vocab enc, showing_start = 0,
                 showing_end = 5, vocab_count = len ?vs, search_term = []\<rparr>"
  have e: "min (0 + 5) (n_vocab enc) = 5" using h by simp
  have ret: "get_vocabulary_helper tk lower 0 5 [] = Inr ?page"
    using get_vocabulary_helper_Inr [OF assms, of lower 0 5 "[]"] unfolding e .
  have r: "py_range 0 5 = [0, 1, 2, 3, 4]" by (simp add: py_range_def upto_rec1)
  have ids: "map vocab_token_id ?vs = [0, 1, 2, 3, 4]"
    unfolding vocab_loop_ids r by (simp add: vocab_body_empty_search)
  then have "length (map vocab_token_id ?vs) = 5" by simp
  then have l: "length ?vs = 5" by simp
  show "\<exists>page. get_vocabulary_helper tk lower 0 5 [] = Inr page
               \<and> length (vocabulary page) = 5
               \<and> vocab_count page = 5
               \<and> map vocab_token_id (vocabulary page) = [0, 1, 2, 3, 4]"
    using ret ids l by (intro exI [of _ ?page]) (simp add: len_def)
qed

theorem page_ids_in_window_ascending_witness:
  "get_encoding demo_tiktoken cl100k_base = Inr demo_encoding
   \<and> (0::int) \<le> 1 \<and> (0::int) < 6 \<and> 5 \<le> n_vocab demo_encoding
   \<and> (\<exists>page. get_vocabulary_helper demo_tiktoken demo_lower 1 6 (py_str ''b'') = Inr page
         \<and> int (length (vocabulary page)) \<le> 6
         \<and> (\<forall>entry \<in> set (vocabulary page).
               1 \<le> vocab_token_id entry \<and> vocab_token_id entry < 7)
         \<and> sorted_wrt (<) (map vocab_token_id (vocabulary page)))
   \<and> (\<exists>page. get_vocabulary_helper demo_tiktoken demo_lower 0 5 [] = Inr page
         \<and> map vocab_token_id (vocabulary page) = [0, 1, 2, 3, 4])"
proof -
  have h: "get_encoding demo_tiktoken cl100k_base = Inr demo_encoding"
    by (rule demo_get_encoding)
  have n: "n_vocab demo_encoding = 8" by (simp add: demo_encoding_def)
  have m: "min (1 + 6) (n_vocab demo_encoding) = 7" using n by simp
  have g: "(0::int) \<le> 1 \<and> (0::int) < 6" by simp
  have v: "5 \<le> n_vocab demo_encoding" using n by simp
  note t = page_ids_in_window_ascending [OF h, of 1 6 demo_lower "py_str ''b''"]
  from t g have 1: "\<exists>page. get_vocabulary_helper demo_tiktoken demo_lower 1 6 (py_str ''b'') = Inr page
         \<and> int (length (vocabulary page)) \<le> 6
         \<and> (\<forall>entry \<in> set (vocabulary page).
               1 \<le> vocab_token_id entry \<and> vocab_token_id entry < 7)
         \<and> sorted_wrt (<) (map vocab_token_id (vocabulary page))"
    unfolding m by auto
  from t v have 2: "\<exists>page. get_vocabulary_helper demo_tiktoken demo_lower 0 5 [] = Inr page
         \<and> map vocab_token_id (vocabulary page) = [0, 1, 2, 3, 4]"
    by auto
  from h v 1 2 show ?thesis by simp
qed

text \<open>
  Claim C10. The page builder does not validate \<open>start\<close>: a negative \<open>start\<close> is
  accepted and the call returns a page. With the empty search string, and an encoder
  that rejects negative IDs, the page holds for every negative ID of the scanned window
  the placeholder entry (\<open>[SPECIAL_TOKEN]\<close>, length 0) with that negative \<open>token_id\<close>;
  the bound \<open>0 \<le> start\<close> of the data model is not enforced.
\<close>

theorem negative_start_gives_placeholders:
  assumes "get_encoding tk cl100k_base = Inr enc" and "start < 0"
    and "\<forall>i<0. \<exists>x. decode enc [i] = Inl x"
  shows "\<exists>page. get_vocabulary_helper tk lower start limit [] = Inr page
           \<and> showing_start page = start
           \<and> showing_start page < 0
           \<and> (\<forall>i. start \<le> i \<and> i < min (start + limit) (n_vocab enc) \<and> i < 0 \<longrightarrow>
                 \<lparr>vocab_token_id = i, vocab_token_string = SPECIAL_TOKEN, vocab_length = 0\<rparr>
                   \<in> set (vocabulary page))
           \<and> (0 < limit \<and> start < n_vocab enc \<longrightarrow>
                 (\<exists>entry \<in> set (vocabulary page).
                    vocab_token_id entry < 0 \<and> vocab_token_string entry = SPECIAL_TOKEN
                    \<and> vocab_length entry = 0))"
proof -
  let ?end = "min (start + limit) (n_vocab enc)"
  let ?vs = "vocab_loop enc lower [] (py_range start ?end) []"
  let ?ph = "\<lambda>i. \<lparr>vocab_token_id = i, vocab_token_string = SPECIAL_TOKEN, vocab_length = 0\<rparr>"
  let ?page = "\<lparr>vocabulary = ?vs, total_size = n_vocab enc, showing_start = start,
                 showing_end = ?end, vocab_count = len ?vs, search_term = []\<rparr>"
  have ret: "get_vocabulary_helper tk lower start limit [] = Inr ?page"
    using get_vocabulary_helper_Inr [OF assms(1), of lower start limit "[]"] .
  have ph: "?ph i \<in> set ?vs" if lo: "start \<le> i" and hi: "i < ?end" and neg: "i < 0" for i
  proof -
    obtain x where "decode enc [i] = Inl x" using assms(3) neg by blast
    then have "vocab_body enc lower [] i [] = [?ph i]" by (simp add: vocab_body_fail)
    then show ?thesis using lo hi by (simp add: vocab_loop_mem set_py_range)
  qed
  have first: "\<exists>entry \<in> set ?vs. vocab_token_id entry < 0
                 \<and> vocab_token_string entry = SPECIAL_TOKEN \<and> vocab_length entry = 0"
    if "0 < limit \<and> start < n_vocab enc"
  proof -
    have "?ph start \<in> set ?vs" using that assms(2) by (intro ph) simp_all
    then show ?thesis using assms(2) by force
  qed
  have "showing_start ?page = start \<and> showing_start ?page < 0
        \<and> (\<forall>i. start \<le> i \<and> i < ?end \<and> i < 0 \<longrightarrow> ?ph i \<in> set (vocabulary ?page))
        \<and> (0 < limit \<and> start < n_vocab enc \<longrightarrow>
              (\<exists>entry \<in> set (vocabulary ?page).
                 vocab_token_id entry < 0 \<and> vocab_token_string entry = SPECIAL_TOKEN
                 \<and> vocab_length entry = 0))"
    using ph first assms(2) by simp
  with ret show ?thesis by blast
qed

lemma demo_decode_negative: "\<forall>i<0. \<exists>x. decode demo_encoding [i] = Inl x"
  by (simp add: demo_encoding_def demo_piece_def)

theorem negative_start_gives_placeholders_witness:
  "get_encoding demo_tiktoken cl100k_base = Inr demo_encoding \<and> (-2::int) < 0
   \<and> decode demo_encoding [-2] = Inl (OverflowError (py_str ''negative token''))
   \<and> decode demo_encoding [-1] = Inl (OverflowError (py_str ''negative token''))
   \<and> (\<exists>page. get_vocabulary_helper demo_tiktoken demo_lower (-2) 4 [] = Inr page
         \<and> showing_start page = -2
         \<and> \<lparr>vocab_token_id = -2, vocab_token_string = SPECIAL_TOKEN, vocab_length = 0\<rparr>
              \<in> set (vocabulary page)
         \<and> \<lparr>vocab_token_id = -1, vocab_token_string = SPECIAL_TOKEN, vocab_length = 0\<rparr>
              \<in> set (vocabulary page))"
proof -
  have h: "get_encoding demo_tiktoken cl100k_base = Inr demo_encoding"
    by (rule demo_get_encoding)
  have s: "(-2::int) < 0" by simp
  have m: "min (-2 + 4) (n_vocab demo_encoding) = 2" by (simp add: demo_encoding_def)
  from negative_start_gives_placeholders [OF h s demo_decode_negative, of demo_lower 4]
  obtain page where p: "get_vocabulary_helper demo_tiktoken demo_lower (-2) 4 [] = Inr page"
    and st: "showing_start page = -2"
    and q: "\<forall>i. -2 \<le> i \<and> i < 2 \<and> i < 0 \<longrightarrow>
                 \<lparr>vocab_token_id = i, vocab_token_string = SPECIAL_TOKEN, vocab_length = 0\<rparr>
                   \<in> set (vocabulary page)"
    unfolding m by blast
  have a: "\<lparr>vocab_token_id = -2, vocab_token_string = SPECIAL_TOKEN, vocab_length = 0\<rparr>
              \<in> set (vocabulary page)"
    using q by simp
  have b: "\<lparr>vocab_token_id = -1, vocab_token_string = SPECIAL_TOKEN, vocab_length = 0\<rparr>
              \<in> set (vocabulary page)"
    using q by simp
  have d2: "decode demo_encoding [-2] = Inl (OverflowError (py_str ''negative token''))"
    by (simp add: demo_encoding_def demo_piece_def)
  have d1: "decode demo_encoding [-1] = Inl (OverflowError (py_str ''negative token''))"
    by (simp add: demo_encoding_def demo_piece_def)
  from h s d2 d1 p st a b show ?thesis by blast
qed

section \<open>The loops of the tokenize service\<close>

lemma utf8_code_point_total:
  "\<not> is_surrogate c \<Longrightarrow> \<exists>bs. utf8_code_point c = Inr bs"
  by (simp add: utf8_code_point_def)

lemma utf8_encode_total:
  "\<forall>c \<in> set s. \<not> is_surrogate c \<Longrightarrow> \<exists>bs. utf8_encode s = Inr bs"
proof (induction s)
  case Nil
  show ?case by simp
next
  case (Cons c cs)
  from Cons.prems obtain bs where "utf8_code_point c = Inr bs"
    using utf8_code_point_total [of c] by auto
  moreover from Cons obtain rest where "utf8_encode cs = Inr rest" by auto
  ultimately show ?case by simp
qed

lemma decode_each_total:
  "\<forall>t \<in> set toks. \<exists>s. decode enc [t] = Inr s \<Longrightarrow> \<exists>strs. decode_each enc toks = Inr strs"
proof (induction toks)
  case Nil
  show ?case by simp
next
  case (Cons t rest)
  from Cons.prems obtain s where "decode enc [t] = Inr s" by auto
  moreover from Cons obtain strs where "decode_each enc rest = Inr strs" by auto
  ultimately show ?case by simp
qed

lemma decode_each_Inr:
  "decode_each enc toks = Inr strs \<Longrightarrow> list_all2 (\<lambda>t s. decode enc [t] = Inr s) toks strs"
proof (induction toks arbitrary: strs)
  case Nil
  then show ?case by simp
next
  case (Cons t rest)
  then show ?case by (auto split: sum.splits)
qed

lemma details_loop_total:
  "\<forall>p \<in> set ps. \<forall>c \<in> set (snd p). \<not> is_surrogate c \<Longrightarrow>
   \<exists>ds. details_loop idx ps acc = Inr ds"
proof (induction ps arbitrary: idx acc)
  case Nil
  show ?case by simp
next
  case (Cons p rest)
  obtain tid s where p: "p = (tid, s)" by (cases p)
  from Cons.prems p obtain bs where bs: "utf8_encode s = Inr bs"
    using utf8_encode_total [of s] by auto
  from Cons.prems have "\<forall>p \<in> set rest. \<forall>c \<in> set (snd p). \<not> is_surrogate c" by simp
  from Cons.IH [OF this] show ?case using p bs by simp
qed

lemma details_loop_Inr:
  "details_loop idx ps acc = Inr ds \<Longrightarrow>
   \<exists>new. ds = acc @ new
     \<and> map position new = [idx + 1..idx + int (length ps)]
     \<and> map token_id new = map fst ps
     \<and> map token_string new = map snd ps
     \<and> list_all2 (\<lambda>d s. \<exists>bs. utf8_encode s = Inr bs \<and> byte_length d = int (length bs))
          new (map snd ps)"
proof (induction ps arbitrary: idx acc ds)
  case Nil
  then show ?case by simp
next
  case (Cons p rest)
  obtain tid s where p: "p = (tid, s)" by (cases p)
  from Cons.prems p obtain bs where bs: "utf8_encode s = Inr bs"
    by (auto split: sum.splits)
  let ?d = "\<lparr>position = idx + 1, token_id = tid, token_string = s, byte_length = len bs\<rparr>"
  from Cons.prems p bs have "details_loop (idx + 1) rest (acc @ [?d]) = Inr ds" by simp
  from Cons.IH [OF this] obtain new where new: "ds = (acc @ [?d]) @ new"
    "map position new = [idx + 1 + 1..idx + 1 + int (length rest)]"
    "map token_id new = map fst rest" "map token_string new = map snd rest"
    "list_all2 (\<lambda>d s. \<exists>bs. utf8_encode s = Inr bs \<and> byte_length d = int (length bs))
       new (map snd rest)"
    by blast
  have up: "[idx + 1..idx + int (length (p # rest))] = (idx + 1) # [idx + 1 + 1..idx + 1 + int (length rest)]"
  proof -
    have e: "idx + int (length (p # rest)) = idx + 1 + int (length rest)" by simp
    have "idx + 1 \<le> idx + 1 + int (length rest)" by simp
    from upto_rec1 [OF this] show ?thesis unfolding e .
  qed
  have "ds = acc @ (?d # new)" using new(1) by simp
  moreover have "map position (?d # new) = [idx + 1..idx + int (length (p # rest))]"
    unfolding up using new(2) by simp
  moreover have "map token_id (?d # new) = map fst (p # rest)" using new(3) p by simp
  moreover have "map token_string (?d # new) = map snd (p # rest)" using new(4) p by simp
  moreover have "list_all2 (\<lambda>d s. \<exists>bs. utf8_encode s = Inr bs \<and> byte_length d = int (length bs))
       (?d # new) (map snd (p # rest))"
    using new(5) p bs by (simp add: len_def)
  ultimately show ?case by blast
qed

lemma tokenize_text_helper_Inr:
  assumes "encoding_for_model tk mdl = Inr enc" and "encode enc text = Inr toks"
    and ok: "\<forall>t \<in> set toks. \<exists>s. decode enc [t] = Inr s \<and> (\<forall>c \<in> set s. \<not> is_surrogate c)"
  shows "\<exists>strs details.
           list_all2 (\<lambda>t s. decode enc [t] = Inr s) toks strs
           \<and> details_loop 0 (zip toks strs) [] = Inr details
           \<and> tokenize_text_helper tk text mdl =
               Inr \<lparr>tokens = toks, token_strings = strs, count = len toks,
                    token_details = details, model = mdl, original_text = text\<rparr>"
proof -
  from ok have "\<forall>t \<in> set toks. \<exists>s. decode enc [t] = Inr s" by blast
  from decode_each_total [OF this] obtain strs where strs: "decode_each enc toks = Inr strs"
    by blast
  from decode_each_Inr [OF strs]
  have all2: "list_all2 (\<lambda>t s. decode enc [t] = Inr s) toks strs" .
  have "\<forall>p \<in> set (zip toks strs). \<forall>c \<in> set (snd p). \<not> is_surrogate c"
  proof
    fix p assume p: "p \<in> set (zip toks strs)"
    obtain t s where ts: "p = (t, s)" by (cases p)
    from all2 p ts have d: "decode enc [t] = Inr s" by (auto simp: list_all2_iff)
    from p ts have "t \<in> set toks" by (auto dest: set_zip_leftD)
    with ok d have "\<forall>c \<in> set s. \<not> is_surrogate c" by fastforce
    then show "\<forall>c \<in> set (snd p). \<not> is_surrogate c" using ts by simp
  qed
  from details_loop_total [OF this, of 0 "[]"]
  obtain details where details: "details_loop 0 (zip toks strs) [] = Inr details" by blast
  have "tokenize_text_helper tk text mdl =
               Inr \<lparr>tokens = toks, token_strings = strs, count = len toks,
                    token_details = details, model = mdl, original_text = text\<rparr>"
    using assms(1,2) strs details by (simp add: tokenize_text_helper_def)
  with all2 details show ?thesis by blast
qed

lemma demo_encoding_for_model:
  "encoding_for_model demo_tiktoken (py_str ''gpt-4'') = Inr demo_encoding"
  by (simp add: demo_tiktoken_def)

lemma demo_encode_text:
  "encode demo_encoding (py_str ''Abc'' @ [233, 8364]) = Inr [0, 1, 2, 3, 4]"
  by (simp add: demo_encoding_def py_str_def demo_id_def)

lemma demo_tokens_decode:
  "\<forall>t \<in> set [0, 1, 2, 3, 4].
     \<exists>s. decode demo_encoding [t] = Inr s \<and> (\<forall>c \<in> set s. \<not> is_surrogate c)"
  by (simp add: demo_encoding_def demo_piece_def py_str_def is_surrogate_def)

section \<open>The tokenize service\<close>

text \<open>
  Claim C6. For every text and every model that resolves to an encoding, the tokenize
  service returns \<open>count\<close> equal to the length of the token-ID sequence the encoder
  produces for the text, \<open>token_details\<close> holds exactly \<open>count\<close> records, and their
  \<open>position\<close> fields are \<open>1, 2, ..., count\<close> in this order. The service returns when
  the encoder produces the sequence, decodes each of its tokens, and the decoded strings
  hold no lone surrogate.
\<close>

theorem tokenize_count_and_positions:
  assumes "encoding_for_model tk mdl = Inr enc" and "encode enc text = Inr toks"
    and "\<forall>t \<in> set toks. \<exists>s. decode enc [t] = Inr s \<and> (\<forall>c \<in> set s. \<not> is_surrogate c)"
  shows "\<exists>r. tokenize_text_helper tk text mdl = Inr r
           \<and> count r = int (length toks)
           \<and> int (length (token_details r)) = count r
           \<and> map position (token_details r) = [1..count r]"
proof -
  from tokenize_text_helper_Inr [OF assms] obtain strs details where
    all2: "list_all2 (\<lambda>t s. decode enc [t] = Inr s) toks strs"
    and details: "details_loop 0 (zip toks strs) [] = Inr details"
    and ret: "tokenize_text_helper tk text mdl =
               Inr \<lparr>tokens = toks, token_strings = strs, count = len toks,
                    token_details = details, model = mdl, original_text = text\<rparr>"
    by blast
  have n: "length (zip toks strs) = length toks"
    using list_all2_lengthD [OF all2] by simp
  from details_loop_Inr [OF details]
  have pos: "map position details = [1..int (length toks)]" unfolding n by auto
  have "length (map position details) = length toks" unfolding pos by simp
  then have l: "length details = length toks" by simp
  show ?thesis
    using ret pos l
    by (intro exI [of _ "\<lparr>tokens = toks, token_strings = strs, count = len toks,
                    token_details = details, model = mdl, original_text = text\<rparr>"])
       (simp add: len_def)
qed

theorem tokenize_count_and_positions_witness:
  "encoding_for_model demo_tiktoken (py_str ''gpt-4'') = Inr demo_encoding
   \<and> encode demo_encoding (py_str ''Abc'' @ [233, 8364]) = Inr [0, 1, 2, 3, 4]
   \<and> (\<exists>r. tokenize_text_helper demo_tiktoken (py_str ''Abc'' @ [233, 8364]) (py_str ''gpt-4'') = Inr r
         \<and> count r = 5
         \<and> length (token_details r) = 5
         \<and> map position (token_details r) = [1, 2, 3, 4, 5])"
proof -
  from tokenize_count_and_positions
    [OF demo_encoding_for_model demo_encode_text demo_tokens_decode]
  obtain r where
    r: "tokenize_text_helper demo_tiktoken (py_str ''Abc'' @ [233, 8364]) (py_str ''gpt-4'') = Inr r"
    and c: "count r = int (length [0::int, 1, 2, 3, 4])"
    and l: "int (length (token_details r)) = count r"
    and p: "map position (token_details r) = [1..count r]"
    by blast
  from c have c5: "count r = 5" by simp
  from l c5 have l5: "length (token_details r) = 5" by simp
  from p c5 have p5: "map position (token_details r) = [1, 2, 3, 4, 5]"
    by (simp add: upto_rec1)
  from demo_encoding_for_model demo_encode_text r c5 l5 p5 show ?thesis by simp
qed

text \<open>
  Claim C7. The tokenize service decodes each token ID on its own: for each index \<open>i\<close>,
  \<open>token_strings[i]\<close> is the decode of the one-element sequence \<open>[tokens[i]]\<close>, and
  the record \<open>token_details[i]\<close> carries that token, that string and, as
  \<open>byte_length\<close>, the number of bytes of the UTF-8 form of that string.
\<close>

theorem tokenize_decodes_each_token:
  assumes "encoding_for_model tk mdl = Inr enc" and "encode enc text = Inr toks"
    and "\<forall>t \<in> set toks. \<exists>s. decode enc [t] = Inr s \<and> (\<forall>c \<in> set s. \<not> is_surrogate c)"
  shows "\<exists>r. tokenize_text_helper tk text mdl = Inr r
           \<and> tokens r = toks
           \<and> length (token_strings r) = length toks
           \<and> length (token_details r) = length toks
           \<and> (\<forall>i < length toks.
                 decode enc [tokens r ! i] = Inr (token_strings r ! i)
                 \<and> token_id (token_details r ! i) = tokens r ! i
                 \<and> token_string (token_details r ! i) = token_strings r ! i
                 \<and> (\<exists>bs. utf8_encode (token_strings r ! i) = Inr bs
                        \<and> byte_length (token_details r ! i) = int (length bs)))"
proof -
  from tokenize_text_helper_Inr [OF assms] obtain strs details where
    all2: "list_all2 (\<lambda>t s. decode enc [t] = Inr s) toks strs"
    and details: "details_loop 0 (zip toks strs) [] = Inr details"
    and ret: "tokenize_text_helper tk text mdl =
               Inr \<lparr>tokens = toks, token_strings = strs, count = len toks,
                    token_details = details, model = mdl, original_text = text\<rparr>"
    by blast
  have ls: "length strs = length toks" using list_all2_lengthD [OF all2] by simp
  from details_loop_Inr [OF details]
  have ids: "map token_id details = map fst (zip toks strs)"
    and strings: "map token_string details = map snd (zip toks strs)"
    and bytes: "list_all2 (\<lambda>d s. \<exists>bs. utf8_encode s = Inr bs \<and> byte_length d = int (length bs))
                  details (map snd (zip toks strs))"
    by auto
  have fst: "map fst (zip toks strs) = toks" using ls by simp
  have snd: "map snd (zip toks strs) = strs" using ls by simp
  have "length (map token_id details) = length toks" unfolding ids fst ..
  then have ld: "length details = length toks" by simp
  have each: "decode enc [toks ! i] = Inr (strs ! i)
              \<and> token_id (details ! i) = toks ! i
              \<and> token_string (details ! i) = strs ! i
              \<and> (\<exists>bs. utf8_encode (strs ! i) = Inr bs
                     \<and> byte_length (details ! i) = int (length bs))"
    if i: "i < length toks" for i
  proof -
    have a: "decode enc [toks ! i] = Inr (strs ! i)"
      using list_all2_nthD [OF all2 i] .
    have "map token_id details ! i = toks ! i" unfolding ids fst ..
    then have b: "token_id (details ! i) = toks ! i" using i ld by simp
    have "map token_string details ! i = strs ! i" unfolding strings snd ..
    then have c: "token_string (details ! i) = strs ! i" using i ld by simp
    have "i < length details" using i ld by simp
    from list_all2_nthD [OF bytes [unfolded snd] this]
    have d: "\<exists>bs. utf8_encode (strs ! i) = Inr bs \<and> byte_length (details ! i) = int (length bs)" .
    from a b c d show ?thesis by simp
  qed
  show ?thesis
    using ret ls ld each
    by (intro exI [of _ "\<lparr>tokens = toks, token_strings = strs, count = len toks,
                    token_details = details, model = mdl, original_text = text\<rparr>"])
       simp
qed

theorem tokenize_decodes_each_token_witness:
  "encoding_for_model demo_tiktoken (py_str ''gpt-4'') = Inr demo_encoding
   \<and> encode demo_encoding (py_str ''Abc'' @ [233, 8364]) = Inr [0, 1, 2, 3, 4]
   \<and> (\<exists>r. tokenize_text_helper demo_tiktoken (py_str ''Abc'' @ [233, 8364]) (py_str ''gpt-4'') = Inr r
         \<and> decode demo_encoding [tokens r ! 4] = Inr (token_strings r ! 4)
         \<and> token_strings r ! 4 = [8364]
         \<and> utf8_encode (token_strings r ! 4) = Inr [226, 130, 172]
         \<and> byte_length (token_details r ! 4) = 3)"
proof -
  from tokenize_decodes_each_token
    [OF demo_encoding_for_model demo_encode_text demo_tokens_decode]
  obtain r where
    r: "tokenize_text_helper demo_tiktoken (py_str ''Abc'' @ [233, 8364]) (py_str ''gpt-4'') = Inr r"
    and t: "tokens r = [0, 1, 2, 3, 4]"
    and e: "\<forall>i < length [0::int, 1, 2, 3, 4].
                 decode demo_encoding [tokens r ! i] = Inr (token_strings r ! i)
                 \<and> token_id (token_details r ! i) = tokens r ! i
                 \<and> token_string (token_details r ! i) = token_strings r ! i
                 \<and> (\<exists>bs. utf8_encode (token_strings r ! i) = Inr bs
                        \<and> byte_length (token_details r ! i) = int (length bs))"
    by blast
  have "(4::nat) < length [0::int, 1, 2, 3, 4]" by simp
  with e have e4: "decode demo_encoding [tokens r ! 4] = Inr (token_strings r ! 4)
                 \<and> (\<exists>bs. utf8_encode (token_strings r ! 4) = Inr bs
                        \<and> byte_length (token_details r ! 4) = int (length bs))"
    by blast
  have "decode demo_encoding [tokens r ! 4] = Inr [8364]"
    unfolding t by (simp add: demo_encoding_def demo_piece_def)
  with e4 have s4: "token_strings r ! 4 = [8364]" by simp
  have u: "utf8_encode [8364] = Inr [226, 130, 172]"
    by (simp add: utf8_code_point_def is_surrogate_def)
  from e4 s4 u have b4: "byte_length (token_details r ! 4) = 3" by auto
  from demo_encoding_for_model demo_encode_text r e4 s4 u b4 show ?thesis by simp
qed

lemma decode_drop_concat:
  assumes nil: "decode enc [] = Inr []"
    and all2: "list_all2 (\<lambda>t s. decode enc [t] = Inr s) toks strs"
    and step: "\<forall>k < length toks. \<forall>a b.
                 decode enc [toks ! k] = Inr a \<and> decode enc (drop (Suc k) toks) = Inr b \<longrightarrow>
                 decode enc (drop k toks) = Inr (a @ b)"
  shows "k \<le> length toks \<Longrightarrow> decode enc (drop k toks) = Inr (concat (drop k strs))"
proof (induction "length toks - k" arbitrary: k)
  case 0
  then have "k = length toks" by simp
  moreover have "length strs = length toks" using list_all2_lengthD [OF all2] by simp
  ultimately show ?case using nil by simp
next
  case (Suc n)
  then have k: "k < length toks" by simp
  have ls: "length strs = length toks" using list_all2_lengthD [OF all2] by simp
  have "n = length toks - Suc k" using Suc.hyps(2) by simp
  moreover have "Suc k \<le> length toks" using k by simp
  ultimately have rest: "decode enc (drop (Suc k) toks) = Inr (concat (drop (Suc k) strs))"
    by (rule Suc.hyps(1))
  have one: "decode enc [toks ! k] = Inr (strs ! k)" using list_all2_nthD [OF all2 k] .
  from step k one rest
  have "decode enc (drop k toks) = Inr (strs ! k @ concat (drop (Suc k) strs))" by blast
  moreover have "drop k strs = strs ! k # drop (Suc k) strs"
    using k ls by (simp add: Cons_nth_drop_Suc)
  ultimately show ?case by simp
qed

lemma bytes_encoding_for_model:
  "encoding_for_model bytes_tiktoken (py_str ''gpt-4'') = Inr bytes_encoding"
  by (simp add: bytes_tiktoken_def)

lemma bytes_encode_Hi: "encode bytes_encoding (py_str ''Hi'') = Inr [72, 105]"
  by (simp add: bytes_encoding_def bytes_encode_def py_str_def utf8_code_point_def)

lemma bytes_tokens_decode:
  "\<forall>t \<in> set [72, 105].
     \<exists>s. decode bytes_encoding [t] = Inr s \<and> (\<forall>c \<in> set s. \<not> is_surrogate c)"
  by (simp add: bytes_encoding_def bytes_decode_def is_surrogate_def)

lemma bytes_decode_Hi_steps:
  "\<forall>k < length [72::int, 105]. \<forall>a b.
     decode bytes_encoding [[72, 105] ! k] = Inr a
     \<and> decode bytes_encoding (drop (Suc k) [72, 105]) = Inr b \<longrightarrow>
     decode bytes_encoding (drop k [72, 105]) = Inr (a @ b)"
proof (intro allI impI)
  fix k :: nat and a b
  assume "k < length [72::int, 105]"
  then have "k = 0 \<or> k = 1" by auto
  moreover assume "decode bytes_encoding [[72, 105] ! k] = Inr a
     \<and> decode bytes_encoding (drop (Suc k) [72, 105]) = Inr b"
  ultimately show "decode bytes_encoding (drop k [72, 105]) = Inr (a @ b)"
    by (auto simp: bytes_encoding_def bytes_decode_def)
qed

text \<open>
  Claim C8, as amended. For every text and every model that resolves to an encoding, if
  \<open>decode\<close> splits along the tokens of the text's own token-ID sequence (the empty
  sequence decodes to the empty string and, at each position of that sequence, the
  decode of the tokens from there on is the decode of the one token at that position
  followed by the decode of the tokens after it), then the concatenation of
  \<open>token_strings\<close> is the decode of the whole token-ID sequence that the encoder
  produces for the text. Nothing is required of \<open>decode\<close> on other sequences.
\<close>

theorem token_strings_concat_is_bulk_decode:
  assumes "encoding_for_model tk mdl = Inr enc" and "encode enc text = Inr toks"
    and "\<forall>t \<in> set toks. \<exists>s. decode enc [t] = Inr s \<and> (\<forall>c \<in> set s. \<not> is_surrogate c)"
    and "decode enc [] = Inr []"
    and "\<forall>k < length toks. \<forall>a b.
           decode enc [toks ! k] = Inr a \<and> decode enc (drop (Suc k) toks) = Inr b \<longrightarrow>
           decode enc (drop k toks) = Inr (a @ b)"
  shows "\<exists>r. tokenize_text_helper tk text mdl = Inr r
           \<and> encode enc text = Inr (tokens r)
           \<and> decode enc (tokens r) = Inr (concat (token_strings r))"
proof -
  from tokenize_text_helper_Inr [OF assms(1,2,3)] obtain strs details where
    all2: "list_all2 (\<lambda>t s. decode enc [t] = Inr s) toks strs"
    and ret: "tokenize_text_helper tk text mdl =
               Inr \<lparr>tokens = toks, token_strings = strs, count = len toks,
                    token_details = details, model = mdl, original_text = text\<rparr>"
    by blast
  from decode_drop_concat [OF assms(4) all2 assms(5), of 0]
  have "decode enc toks = Inr (concat strs)" by simp
  then show ?thesis
    using ret assms(2)
    by (intro exI [of _ "\<lparr>tokens = toks, token_strings = strs, count = len toks,
                    token_details = details, model = mdl, original_text = text\<rparr>"])
       simp
qed

theorem token_strings_concat_is_bulk_decode_witness:
  "encoding_for_model bytes_tiktoken (py_str ''gpt-4'') = Inr bytes_encoding
   \<and> encode bytes_encoding (py_str ''Hi'') = Inr [72, 105]
   \<and> decode bytes_encoding [] = Inr []
   \<and> (\<exists>r. tokenize_text_helper bytes_tiktoken (py_str ''Hi'') (py_str ''gpt-4'') = Inr r
         \<and> tokens r = [72, 105]
         \<and> decode bytes_encoding (tokens r) = Inr (concat (token_strings r))
         \<and> concat (token_strings r) = py_str ''Hi'')"
proof -
  have nil: "decode bytes_encoding [] = Inr []"
    by (simp add: bytes_encoding_def bytes_decode_def)
  from token_strings_concat_is_bulk_decode
    [OF bytes_encoding_for_model bytes_encode_Hi bytes_tokens_decode nil bytes_decode_Hi_steps]
  obtain r where
    r: "tokenize_text_helper bytes_tiktoken (py_str ''Hi'') (py_str ''gpt-4'') = Inr r"
    and e: "encode bytes_encoding (py_str ''Hi'') = Inr (tokens r)"
    and d: "decode bytes_encoding (tokens r) = Inr (concat (token_strings r))"
    by blast
  from e have t: "tokens r = [72, 105]" unfolding bytes_encode_Hi by simp
  have "decode bytes_encoding [72, 105] = Inr (py_str ''Hi'')"
    by (simp add: bytes_encoding_def bytes_decode_def py_str_def)
  with d t have c: "concat (token_strings r) = py_str ''Hi''" by simp
  from bytes_encoding_for_model bytes_encode_Hi nil r t d c show ?thesis by simp
qed

theorem token_strings_concat_counterexample:
  "encoding_for_model bytes_tiktoken (py_str ''gpt-4'') = Inr bytes_encoding
   \<and> encode bytes_encoding [233] = Inr [195, 169]
   \<and> tokenize_text_helper bytes_tiktoken [233] (py_str ''gpt-4'') =
       Inr \<lparr>tokens = [195, 169], token_strings = [[65533], [65533]], count = 2,
            token_details =
              [\<lparr>position = 1, token_id = 195, token_string = [65533], byte_length = 3\<rparr>,
               \<lparr>position = 2, token_id = 169, token_string = [65533], byte_length = 3\<rparr>],
            model = py_str ''gpt-4'', original_text = [233]\<rparr>
   \<and> decode bytes_encoding [195, 169] = Inr [233]
   \<and> concat [[65533], [65533]] \<noteq> [233::nat]"
  by (simp add: tokenize_text_helper_def bytes_tiktoken_def bytes_encoding_def bytes_encode_def
      bytes_decode_def utf8_code_point_def is_surrogate_def len_def)

section \<open>The stats reporter\<close>

text \<open>
  Claim C9, as amended. The stats reporter takes no request input. It succeeds exactly
  when the library gives an encoding for \<open>cl100k_base\<close>; it then returns the name of
  that encoding, the size of its vocabulary, one fixed description and one fixed list of
  three model identifiers. When the library raises, the stats reporter raises the same
  exception.
\<close>

theorem stats_follow_the_library:
  "((\<exists>stats. get_stats_helper tk = Inr stats) = (\<exists>enc. get_encoding tk cl100k_base = Inr enc))
   \<and> (\<forall>enc. get_encoding tk cl100k_base = Inr enc \<longrightarrow>
         get_stats_helper tk =
           Inr \<lparr>encoding_name = name enc, total_tokens = n_vocab enc,
                description = py_str ''GPT-3.5/GPT-4 vocabulary (cl100k_base)'',
                supported_models =
                  [py_str ''gpt-3.5-turbo'', py_str ''gpt-4'', py_str ''gpt-4-turbo'']\<rparr>)
   \<and> (\<forall>e. get_encoding tk cl100k_base = Inl e \<longrightarrow> get_stats_helper tk = Inl e)"
proof (cases "get_encoding tk cl100k_base")
  case (Inl e)
  then show ?thesis by (simp add: get_stats_helper_def)
next
  case (Inr enc)
  then show ?thesis by (simp add: get_stats_helper_def)
qed

theorem stats_follow_the_library_witness:
  "get_encoding demo_tiktoken cl100k_base = Inr demo_encoding
   \<and> get_stats_helper demo_tiktoken =
       Inr \<lparr>encoding_name = py_str ''demo'', total_tokens = 8,
            description = py_str ''GPT-3.5/GPT-4 vocabulary (cl100k_base)'',
            supported_models =
              [py_str ''gpt-3.5-turbo'', py_str ''gpt-4'', py_str ''gpt-4-turbo'']\<rparr>"
proof -
  have n: "name demo_encoding = py_str ''demo'' \<and> n_vocab demo_encoding = 8"
    by (simp add: demo_encoding_def)
  from stats_follow_the_library [of demo_tiktoken] demo_get_encoding
  have "get_stats_helper demo_tiktoken =
           Inr \<lparr>encoding_name = name demo_encoding, total_tokens = n_vocab demo_encoding,
                description = py_str ''GPT-3.5/GPT-4 vocabulary (cl100k_base)'',
                supported_models =
                  [py_str ''gpt-3.5-turbo'', py_str ''gpt-4'', py_str ''gpt-4-turbo'']\<rparr>"
    by blast
  with n demo_get_encoding show ?thesis by simp
qed

theorem stats_library_failure_counterexample:
  "get_encoding offline_tiktoken cl100k_base =
     Inl (RuntimeError (py_str ''vocabulary file unavailable''))
   \<and> get_stats_helper offline_tiktoken =
       Inl (RuntimeError (py_str ''vocabulary file unavailable''))"
  by (simp add: get_stats_helper_def offline_tiktoken_def)

end
